theory Spec2Isabelle
  imports Complex_Main "HOL-Library.Word"
begin

section \<open>Data model of the timeline editor (src/js/timeline.js)\<close>

text \<open>
  JavaScript numbers are modelled as real numbers: the interpolation and the transform
  chain are stated over exact arithmetic, and NaN, the infinities and rounding of doubles
  are outside the model. For a number \<open>a\<close>, the expression \<open>a || b\<close> is \<open>b\<close> when
  \<open>a\<close> is zero and \<open>a\<close> otherwise.
\<close>

definition js_or :: "real \<Rightarrow> real \<Rightarrow> real" where
  "js_or a b = (if a = 0 then b else a)"

text \<open>The constant \<open>KF_PROPS\<close> of the source, line 6.\<close>

definition KF_PROPS :: "string list" where
  "KF_PROPS = [''x'', ''y'', ''scale_x'', ''scale_y'', ''rotation'', ''opacity'',
               ''mask_size'', ''flip_h'', ''flip_v'']"

text \<open>A keyframe \<open>{ time, value }\<close>.\<close>

record keyframe =
  time :: real
  "value" :: real

text \<open>
  A layer as \<open>#normalizeLayer\<close> builds it. The animatable fields are read and written
  through \<open>layer[prop]\<close>, so they are kept as a map from the property name (\<open>vals\<close>);
  \<open>keyframes\<close> is the object \<open>layer.keyframes\<close>, a partial map from the property name
  to its track. \<open>img\<close> is the decoded raster, of which only the width and the height are
  read here (\<open>None\<close> when no raster is attached).
\<close>

record layer =
  lid :: string
  ltype :: string
  bg_mode :: string
  vals :: "string \<Rightarrow> real"
  keyframes :: "string \<rightharpoonup> keyframe list"
  img :: "(real \<times> real) option"

section \<open>The canvas transform (CanvasRenderingContext2D)\<close>

text \<open>
  The drawing calls of \<open>#render\<close> and \<open>#drawBackground\<close> act on the current
  transformation matrix of the 2D context. The matrix \<open>(a, b, c, d, e, f)\<close> sends the
  user-space point \<open>(px, py)\<close> to \<open>(a px + c py + e, b px + d py + f)\<close>;
  \<open>translate\<close>, \<open>rotate\<close> and \<open>scale\<close> multiply the matrix on the right, as the HTML
  canvas standard defines them.
\<close>

record ctm =
  ma :: real
  mb :: real
  mc :: real
  md :: real
  me :: real
  mf :: real

definition ctm_identity :: ctm where
  "ctm_identity = \<lparr>ma = 1, mb = 0, mc = 0, md = 1, me = 0, mf = 0\<rparr>"

definition ctx_translate :: "ctm \<Rightarrow> real \<Rightarrow> real \<Rightarrow> ctm" where
  "ctx_translate m tx ty =
     m\<lparr>me := ma m * tx + mc m * ty + me m, mf := mb m * tx + md m * ty + mf m\<rparr>"

definition ctx_rotate :: "ctm \<Rightarrow> real \<Rightarrow> ctm" where
  "ctx_rotate m ang =
     m\<lparr>ma := ma m * cos ang + mc m * sin ang, mb := mb m * cos ang + md m * sin ang,
       mc := mc m * cos ang - ma m * sin ang, md := md m * cos ang - mb m * sin ang\<rparr>"

definition ctx_scale :: "ctm \<Rightarrow> real \<Rightarrow> real \<Rightarrow> ctm" where
  "ctx_scale m sx sy = m\<lparr>ma := ma m * sx, mb := mb m * sx, mc := mc m * sy, md := md m * sy\<rparr>"

definition ctm_apply :: "ctm \<Rightarrow> real \<times> real \<Rightarrow> real \<times> real" where
  "ctm_apply m p = (ma m * fst p + mc m * snd p + me m, mb m * fst p + md m * snd p + mf m)"

text \<open>
  \<open>drawImage(img, dx, dy)\<close> paints the raster at its own size with its corner at the
  user-space point \<open>(dx, dy)\<close> (\<open>dc_size = None\<close>); \<open>drawImage(img, dx, dy, dw, dh)\<close>
  paints it into the rectangle of size \<open>dw \<times> dh\<close>. A draw call is recorded with the
  arguments of the \<open>scale\<close> call before it.
\<close>

record draw_call =
  dc_ctm :: ctm
  dc_scale :: "real \<times> real"
  dc_pos :: "real \<times> real"
  dc_size :: "(real \<times> real) option"

text \<open>
  Where the raster pixel coordinate \<open>(u, v)\<close> of a drawn image of size \<open>isz\<close> lands on
  the canvas.
\<close>

definition draw_point :: "draw_call \<Rightarrow> real \<times> real \<Rightarrow> real \<times> real \<Rightarrow> real \<times> real" where
  "draw_point d isz uv =
     ctm_apply (dc_ctm d)
       (case dc_size d of
          None \<Rightarrow> (fst (dc_pos d) + fst uv, snd (dc_pos d) + snd uv)
        | Some sz \<Rightarrow> (fst (dc_pos d) + fst uv * fst sz / fst isz,
                     snd (dc_pos d) + snd uv * snd sz / snd isz))"

text \<open>
  The extent of the drawn image along its own (rotated) axes, in canvas pixels: the size
  of the painted rectangle times the magnitude of the scale in force.
\<close>

definition drawn_width :: "draw_call \<Rightarrow> real \<times> real \<Rightarrow> real" where
  "drawn_width d isz =
     \<bar>fst (dc_scale d)\<bar> * (case dc_size d of None \<Rightarrow> fst isz | Some sz \<Rightarrow> fst sz)"

definition drawn_height :: "draw_call \<Rightarrow> real \<times> real \<Rightarrow> real" where
  "drawn_height d isz =
     \<bar>snd (dc_scale d)\<bar> * (case dc_size d of None \<Rightarrow> snd isz | Some sz \<Rightarrow> snd sz)"

section \<open>Forward mapping of a foreground layer (\<open>#render\<close>, lines 718-741)\<close>

text \<open>The signed factors \<open>sx\<close>, \<open>sy\<close>; the flips are read as a step at 0.5.\<close>

definition signed_sx :: "layer \<Rightarrow> real" where
  "signed_sx l = js_or (vals l ''scale_x'') 1 * (if vals l ''flip_h'' > 0.5 then -1 else 1)"

definition signed_sy :: "layer \<Rightarrow> real" where
  "signed_sy l = js_or (vals l ''scale_y'') 1 * (if vals l ''flip_v'' > 0.5 then -1 else 1)"

text \<open>
  The foreground branch of the loop over the layers. A layer without a raster is skipped
  (\<open>if (!layer.img) return\<close>): no draw call.
\<close>

definition render_foreground :: "real \<Rightarrow> real \<Rightarrow> layer \<Rightarrow> draw_call option" where
  "render_foreground cw ch l =
     (case img l of
        None \<Rightarrow> None
      | Some isz \<Rightarrow>
          (let m1 = ctx_translate ctm_identity (cw / 2 + vals l ''x'') (ch / 2 + vals l ''y'');
               m2 = ctx_rotate m1 ((vals l ''rotation'' * pi) / 180);
               sx = signed_sx l;
               sy = signed_sy l;
               m3 = ctx_scale m2 sx sy
           in Some \<lparr>dc_ctm = m3, dc_scale = (sx, sy),
                    dc_pos = (- fst isz / 2, - snd isz / 2), dc_size = None\<rparr>))"

text \<open>Where the raster pixel \<open>(u, v)\<close> of a foreground layer is painted on the canvas.\<close>

definition forward_point :: "real \<Rightarrow> real \<Rightarrow> layer \<Rightarrow> real \<times> real \<Rightarrow> (real \<times> real) option" where
  "forward_point cw ch l uv =
     (case img l of
        None \<Rightarrow> None
      | Some isz \<Rightarrow>
          (case render_foreground cw ch l of
             None \<Rightarrow> None
           | Some d \<Rightarrow> Some (draw_point d isz uv)))"

section \<open>Inverse mapping (\<open>#canvasToLayerCoords\<close>, lines 1951-1972)\<close>

text \<open>
  Reading \<open>layer.img.width\<close> of a layer without a raster throws a TypeError: the result
  is \<open>None\<close> then.
\<close>

definition canvasToLayerCoords :: "real \<Rightarrow> real \<Rightarrow> real \<times> real \<Rightarrow> layer \<Rightarrow> (real \<times> real) option" where
  "canvasToLayerCoords cw ch canvasPos l =
     (let cx = cw / 2 + vals l ''x'';
          cy = ch / 2 + vals l ''y'';
          px = fst canvasPos - cx;
          py = snd canvasPos - cy;
          angleRad = - (vals l ''rotation'' * pi / 180);
          c = cos angleRad;
          s = sin angleRad;
          rx = px * c - py * s;
          ry = px * s + py * c;
          sx = signed_sx l;
          sy = signed_sy l
      in case img l of
           None \<Rightarrow> None
         | Some isz \<Rightarrow> Some (rx / sx + fst isz / 2, ry / sy + snd isz / 2))"

section \<open>The wheel gesture (\<open>#onCanvasWheel\<close>, lines 2146-2163)\<close>

text \<open>
  The branch taken when mask mode is off and a layer is selected: both factors are
  multiplied by 1.1 or 0.9 and clamped into \<open>[0.01, 5]\<close>.
\<close>

definition onCanvasWheel :: "real \<Rightarrow> layer \<Rightarrow> layer" where
  "onCanvasWheel deltaY l =
     (let factor = (if deltaY < 0 then 1.1 else 0.9);
          v1 = (vals l)(''scale_x'' := max 0.01 (min 5 (js_or (vals l ''scale_x'') 1 * factor)));
          v2 = v1(''scale_y'' := max 0.01 (min 5 (js_or (v1 ''scale_y'') 1 * factor)))
      in l\<lparr>vals := v2\<rparr>)"

section \<open>Drawing the background (\<open>#drawBackground\<close>, lines 796-829)\<close>

text \<open>
  The local \<open>baseScale\<close> of the branch that is not \<open>stretch\<close>: every mode other than
  \<open>fit\<close> falls into the \<open>else\<close> branch, commented \<open>fill\<close> in the source.
\<close>

definition baseScale :: "real \<Rightarrow> real \<Rightarrow> string \<Rightarrow> real \<times> real \<Rightarrow> real" where
  "baseScale cw ch mode isz =
     (if mode = ''fit'' then min (cw / fst isz) (ch / snd isz)
      else max (cw / fst isz) (ch / snd isz))"

text \<open>
  \<open>#render\<close> calls \<open>#drawBackground\<close> only for a layer with a raster; without one,
  \<open>layer.img.width\<close> throws (\<open>None\<close>).
\<close>

definition drawBackground :: "real \<Rightarrow> real \<Rightarrow> layer \<Rightarrow> draw_call option" where
  "drawBackground cw ch l =
     (case img l of
        None \<Rightarrow> None
      | Some isz \<Rightarrow>
          (let iw = fst isz;
               ih = snd isz;
               userScaleX = js_or (vals l ''scale_x'') 1;
               userScaleY = js_or (vals l ''scale_y'') 1;
               m1 = ctx_translate ctm_identity (cw / 2 + js_or (vals l ''x'') 0)
                      (ch / 2 + js_or (vals l ''y'') 0);
               m2 = ctx_rotate m1 ((js_or (vals l ''rotation'') 0 * pi) / 180);
               flipX = (if vals l ''flip_h'' > 0.5 then -1 else 1);
               flipY = (if vals l ''flip_v'' > 0.5 then -1 else 1)
           in if bg_mode l = ''stretch'' then
                (let drawW = cw * userScaleX;
                     drawH = ch * userScaleY
                 in Some \<lparr>dc_ctm = ctx_scale m2 flipX flipY, dc_scale = (flipX, flipY),
                          dc_pos = (- drawW / 2, - drawH / 2), dc_size = Some (drawW, drawH)\<rparr>)
              else
                (let bs = baseScale cw ch (bg_mode l) isz
                 in Some \<lparr>dc_ctm = ctx_scale m2 (bs * userScaleX * flipX) (bs * userScaleY * flipY),
                          dc_scale = (bs * userScaleX * flipX, bs * userScaleY * flipY),
                          dc_pos = (- iw / 2, - ih / 2), dc_size = None\<rparr>)))"

section \<open>The editor state and the keyframe store\<close>

text \<open>
  The part of \<open>this.state\<close> that the keyframe operations read and write. The drag
  record \<open>{ layer, prop, index }\<close> holds a reference to the layer object; the model keeps
  the position of that layer in \<open>layers\<close>.
\<close>

record state =
  currentTime :: real
  duration :: real
  selectedId :: string
  layers :: "layer list"
  dragKeyframe :: "(nat \<times> string \<times> nat) option"

datatype js_error = TypeError

text \<open>
  \<open>Array.prototype.sort\<close> with the comparator \<open>(a, b) => a.time - b.time\<close> is a
  stable sort on the time, which is what \<^const>\<open>sort_key\<close> computes.
\<close>

definition sort_by_time :: "keyframe list \<Rightarrow> keyframe list" where
  "sort_by_time fs = sort_key time fs"

text \<open>
  \<open>t.toFixed(2)\<close> prints the sign of a negative number and then the digits of the
  integer \<open>n\<close> nearest to \<open>|t| * 100\<close>, the larger one on a tie. Two such strings are
  equal exactly when the sign and \<open>n\<close> are, so the string is modelled by that pair
  (for \<open>|t| < 10^21\<close>, where \<open>toFixed\<close> prints digits).
\<close>

definition toFixed2 :: "real \<Rightarrow> bool \<times> int" where
  "toFixed2 t = (t < 0, \<lfloor>\<bar>t\<bar> * 100 + 1 / 2\<rfloor>)"

text \<open>\<open>layer.keyframes[prop] || []\<close>\<close>

definition track :: "layer \<Rightarrow> string \<Rightarrow> keyframe list" where
  "track l prop = (case keyframes l prop of None \<Rightarrow> [] | Some fs \<Rightarrow> fs)"

text \<open>\<open>#currentLayer\<close>: the first layer whose id is the selected one, or null.\<close>

definition currentLayer :: "state \<Rightarrow> layer option" where
  "currentLayer s = find (\<lambda>l. lid l = selectedId s) (layers s)"

text \<open>
  The operations mutate the object that \<open>#currentLayer\<close> returned; in the list of layers
  that is the first one with the selected id.
\<close>

fun update_current :: "(layer \<Rightarrow> layer) \<Rightarrow> string \<Rightarrow> layer list \<Rightarrow> layer list" where
  "update_current f sid [] = []"
| "update_current f sid (l # ls) =
     (if lid l = sid then f l # ls else l # update_current f sid ls)"

section \<open>Interpolation (\<open>#applyTime\<close>, lines 670-699)\<close>

text \<open>The body of the search loop for the pair \<open>a = frames[i]\<close>, \<open>b = frames[i + 1]\<close>.\<close>

definition lerp :: "keyframe \<Rightarrow> keyframe \<Rightarrow> real \<Rightarrow> real" where
  "lerp a b ct =
     (let t = (ct - time a) / js_or (time b - time a) 1
      in value a + (value b - value a) * t)"

text \<open>
  The loop \<open>for (i = 0; i < frames.length - 1; i += 1)\<close>: the first adjacent pair that
  brackets the time decides, and \<open>break\<close> leaves the loop. \<open>None\<close> when no pair brackets
  it: the property is not assigned.
\<close>

fun interp_loop :: "keyframe list \<Rightarrow> real \<Rightarrow> real option" where
  "interp_loop (a # b # rest) ct =
     (if time a \<le> ct \<and> ct \<le> time b then Some (lerp a b ct)
      else interp_loop (b # rest) ct)"
| "interp_loop _ ct = None"

text \<open>
  What one property is assigned from its sorted track at the time \<open>ct\<close>; \<open>None\<close> when
  nothing is assigned (an empty track returns at once).
\<close>

definition evalTrack :: "keyframe list \<Rightarrow> real \<Rightarrow> real option" where
  "evalTrack frames ct =
     (if frames = [] then None
      else if ct \<le> time (hd frames) then Some (value (hd frames))
      else if ct \<ge> time (last frames) then Some (value (last frames))
      else interp_loop frames ct)"

text \<open>The body of \<open>KF_PROPS.forEach\<close> for one property of one layer.\<close>

definition applyProp :: "real \<Rightarrow> layer \<Rightarrow> string \<Rightarrow> layer" where
  "applyProp ct l prop =
     (let frames = sort_by_time (track l prop)
      in case evalTrack frames ct of
           None \<Rightarrow> l
         | Some v \<Rightarrow> l\<lparr>vals := (vals l)(prop := v)\<rparr>)"

text \<open>
  \<open>#applyTime\<close>: the time is clamped into \<open>[0, duration]\<close> and stored, then every
  property of every layer is evaluated. The repaint that follows does not change the
  state.
\<close>

definition applyTime :: "state \<Rightarrow> real \<Rightarrow> state" where
  "applyTime s t =
     (let ct = max 0 (min (duration s) t)
      in s\<lparr>currentTime := ct,
           layers := map (\<lambda>l. foldl (applyProp ct) l KF_PROPS) (layers s)\<rparr>)"

section \<open>Keyframe operations\<close>

text \<open>The four statements of the body of \<open>#addKeyframe\<close> (lines 1419-1424) for one property.\<close>

definition addKeyframeProp :: "real \<Rightarrow> layer \<Rightarrow> string \<Rightarrow> layer" where
  "addKeyframeProp ct l prop =
     (let fs0 = track l prop;
          fs1 = filter (\<lambda>kf. toFixed2 (time kf) \<noteq> toFixed2 ct) fs0;
          fs2 = fs1 @ [\<lparr>time = ct, value = vals l prop\<rparr>];
          fs3 = sort_by_time fs2
      in l\<lparr>keyframes := (keyframes l)(prop \<mapsto> fs3)\<rparr>)"

definition addKeyframe :: "state \<Rightarrow> state" where
  "addKeyframe s =
     (case currentLayer s of
        None \<Rightarrow> s
      | Some _ \<Rightarrow>
          s\<lparr>layers := update_current (\<lambda>l. foldl (addKeyframeProp (currentTime s)) l KF_PROPS)
                         (selectedId s) (layers s)\<rparr>)"



text \<open>
  \<open>#onTimelineMove\<close> (lines 2191-2202), with \<open>px\<close> the horizontal position of the
  pointer as a fraction of the timeline. Without a drag in progress, or without a track
  for the dragged property, nothing happens. \<open>frames[index].time = newTime\<close> throws a
  TypeError when the index is outside the track.
\<close>

definition onTimelineMove :: "state \<Rightarrow> real \<Rightarrow> js_error + state" where
  "onTimelineMove s px =
     (case dragKeyframe s of
        None \<Rightarrow> Inr s
      | Some (li, prop, index) \<Rightarrow>
          (let newTime = max 0 (min (duration s) (px * duration s))
           in if li < length (layers s) then
                (case keyframes (layers s ! li) prop of
                   None \<Rightarrow> Inr s
                 | Some frames \<Rightarrow>
                     if index < length frames then
                       (let moved = frames[index := (frames ! index)\<lparr>time := newTime\<rparr>];
                            sorted_frames = sort_by_time moved;
                            l' = (layers s ! li)\<lparr>keyframes :=
                                    (keyframes (layers s ! li))(prop \<mapsto> sorted_frames)\<rparr>
                        in Inr (applyTime (s\<lparr>layers := (layers s)[li := l']\<rparr>) newTime))
                     else Inl TypeError)
              else Inr s))"


section \<open>Pixel buffers\<close>

text \<open>
  The \<open>data\<close> of an \<open>ImageData\<close> is a \<open>Uint8ClampedArray\<close>: four bytes per pixel,
  red, green, blue, alpha, row after row. Reading outside the array gives
  \<open>undefined\<close> (\<open>None\<close>), writing outside it does nothing. Drawing a canvas into
  another and reading the bytes back are taken to return the bytes that were put in.
\<close>

type_synonym byte = "8 word"

definition ta_get :: "byte list \<Rightarrow> nat \<Rightarrow> byte option" where
  "ta_get xs i = (if i < length xs then Some (xs ! i) else None)"

definition ta_set :: "byte list \<Rightarrow> nat \<Rightarrow> byte \<Rightarrow> byte list" where
  "ta_set xs i v = (if i < length xs then xs[i := v] else xs)"

text \<open>\<open>v > k\<close> and \<open>v < k\<close> for a value read from an array: false for \<open>undefined\<close>.\<close>

definition js_gt :: "byte option \<Rightarrow> nat \<Rightarrow> bool" where
  "js_gt v k = (case v of None \<Rightarrow> False | Some b \<Rightarrow> k < unat b)"

definition js_lt :: "byte option \<Rightarrow> nat \<Rightarrow> bool" where
  "js_lt v k = (case v of None \<Rightarrow> False | Some b \<Rightarrow> unat b < k)"

text \<open>
  The conversion of a stored number to a byte (\<open>ToUint8Clamp\<close>): NaN, here \<open>None\<close>,
  becomes 0; a number is clamped into \<open>[0, 255]\<close> and rounded to the nearest integer,
  a tie to the even one. Storing \<open>undefined\<close> stores 0 as well.
\<close>

definition toUint8Clamp :: "real option \<Rightarrow> byte" where
  "toUint8Clamp v =
     (case v of
        None \<Rightarrow> 0
      | Some r \<Rightarrow>
          (let clamped = min (max r 0) 255;
               f = \<lfloor>clamped\<rfloor>
           in if clamped < of_int f + 1 / 2 then of_int f
              else if clamped > of_int f + 1 / 2 then of_int (f + 1)
              else if even f then of_int f else of_int (f + 1)))"

definition byte_or_zero :: "byte option \<Rightarrow> byte" where
  "byte_or_zero v = (case v of None \<Rightarrow> 0 | Some b \<Rightarrow> b)"

text \<open>\<open>Math.round\<close>: the nearest integer, a tie upwards.\<close>

definition js_round :: "real \<Rightarrow> int" where
  "js_round r = \<lfloor>r + 1 / 2\<rfloor>"

text \<open>
  \<open>sum += data[i] * weight\<close> and \<open>sum / count\<close> on numbers that may be NaN: an
  \<open>undefined\<close> operand makes the sum NaN for good.
\<close>

definition nan_mac :: "real option \<Rightarrow> byte option \<Rightarrow> real \<Rightarrow> real option" where
  "nan_mac s b w =
     (case s of
        None \<Rightarrow> None
      | Some sv \<Rightarrow> (case b of None \<Rightarrow> None | Some bv \<Rightarrow> Some (sv + real (unat bv) * w)))"

definition nan_div :: "real option \<Rightarrow> real \<Rightarrow> real option" where
  "nan_div s c = (case s of None \<Rightarrow> None | Some sv \<Rightarrow> Some (sv / c))"

text \<open>\<open>createImageData(w, h)\<close>: transparent black.\<close>

definition createImageData :: "nat \<Rightarrow> nat \<Rightarrow> byte list" where
  "createImageData w h = replicate (4 * w * h) 0"

section \<open>Region extraction (\<open>BackgroundExtractor.extract\<close>, \<open>#applyExtraction\<close>)\<close>

text \<open>
  The cut-out loop, lines 130-141 of the extractor and, statement for statement,
  lines 1805-1817 of the timeline: \<open>for (i = 0; i < bgData.length; i += 4)\<close>, with
  its body first.
\<close>

definition cutout_step :: "byte list \<Rightarrow> byte list \<Rightarrow> byte list \<Rightarrow> nat \<Rightarrow> byte list" where
  "cutout_step bgData maskData fgData i =
     (let maskValue = ta_get maskData i
      in if js_gt maskValue 128 then
           (let f1 = ta_set fgData i (byte_or_zero (ta_get bgData i));
                f2 = ta_set f1 (i + 1) (byte_or_zero (ta_get bgData (i + 1)));
                f3 = ta_set f2 (i + 2) (byte_or_zero (ta_get bgData (i + 2)))
            in ta_set f3 (i + 3) 255)
         else ta_set fgData (i + 3) 0)"

function cutout_loop :: "byte list \<Rightarrow> byte list \<Rightarrow> byte list \<Rightarrow> nat \<Rightarrow> byte list" where
  "cutout_loop bgData maskData fgData i =
     (if i < length bgData then
        cutout_loop bgData maskData (cutout_step bgData maskData fgData i) (i + 4)
      else fgData)"
  by pat_completeness auto
termination
  by (relation "measure (\<lambda>(bgData, maskData, fgData, i). length bgData - i)") auto

declare cutout_loop.simps [simp del]

definition cutout :: "nat \<Rightarrow> nat \<Rightarrow> byte list \<Rightarrow> byte list \<Rightarrow> byte list" where
  "cutout w h bgData maskData = cutout_loop bgData maskData (createImageData w h) 0"

text \<open>
  The hole fill, lines 159-202. The accumulator holds \<open>sumR\<close>, \<open>sumG\<close>, \<open>sumB\<close> and
  \<open>count\<close>; the body below is the one of the loop over \<open>dx\<close>.
\<close>

definition blurRadius :: int where
  "blurRadius = 10"

type_synonym fill_acc = "real option \<times> real option \<times> real option \<times> real"

definition fill_neighbour ::
  "nat \<Rightarrow> nat \<Rightarrow> byte list \<Rightarrow> byte list \<Rightarrow> nat \<Rightarrow> nat \<Rightarrow> int \<Rightarrow> fill_acc \<Rightarrow> int \<Rightarrow> fill_acc" where
  "fill_neighbour w h bgData maskData x y dy acc dx =
     (case acc of (sumR, sumG, sumB, count) \<Rightarrow>
        (let nx = int x + dx;
             ny = int y + dy
         in if nx \<ge> 0 \<and> nx < int w \<and> ny \<ge> 0 \<and> ny < int h then
              (let nidx = nat ((ny * int w + nx) * 4);
                   nmask = ta_get maskData nidx
               in if js_lt nmask 128 then
                    (let distance = sqrt (real_of_int (dx * dx + dy * dy));
                         weight = max 0 (real_of_int blurRadius - distance)
                     in (nan_mac sumR (ta_get bgData nidx) weight,
                         nan_mac sumG (ta_get bgData (nidx + 1)) weight,
                         nan_mac sumB (ta_get bgData (nidx + 2)) weight,
                         count + weight))
                  else acc)
            else acc))"

definition fill_sample :: "nat \<Rightarrow> nat \<Rightarrow> byte list \<Rightarrow> byte list \<Rightarrow> nat \<Rightarrow> nat \<Rightarrow> fill_acc" where
  "fill_sample w h bgData maskData x y =
     foldl (\<lambda>acc dy. foldl (fill_neighbour w h bgData maskData x y dy) acc [- blurRadius..blurRadius])
       (Some 0, Some 0, Some 0, 0) [- blurRadius..blurRadius]"

text \<open>The body of the loop over \<open>x\<close>.\<close>

definition fill_pixel ::
  "nat \<Rightarrow> nat \<Rightarrow> byte list \<Rightarrow> byte list \<Rightarrow> nat \<Rightarrow> byte list \<Rightarrow> nat \<Rightarrow> byte list" where
  "fill_pixel w h bgData maskData y filledData x =
     (let idx = (y * w + x) * 4;
          maskValue = ta_get maskData idx
      in if js_gt maskValue 128 then
           (case fill_sample w h bgData maskData x y of (sumR, sumG, sumB, count) \<Rightarrow>
              if count > 0 then
                (let f1 = ta_set filledData idx
                            (toUint8Clamp (map_option (\<lambda>v. real_of_int (js_round v)) (nan_div sumR count)));
                     f2 = ta_set f1 (idx + 1)
                            (toUint8Clamp (map_option (\<lambda>v. real_of_int (js_round v)) (nan_div sumG count)));
                     f3 = ta_set f2 (idx + 2)
                            (toUint8Clamp (map_option (\<lambda>v. real_of_int (js_round v)) (nan_div sumB count)))
                 in ta_set f3 (idx + 3) 255)
              else filledData)
         else filledData)"

text \<open>
  Lines 146-202: the new buffer takes the bytes of the background, then the two loops
  over \<open>y\<close> and \<open>x\<close> fill the selected pixels.
\<close>

definition copy_background :: "nat \<Rightarrow> nat \<Rightarrow> byte list \<Rightarrow> byte list" where
  "copy_background w h bgData =
     foldl (\<lambda>filledData i. ta_set filledData i (bgData ! i)) (createImageData w h)
       [0..<length bgData]"

definition holeFill :: "nat \<Rightarrow> nat \<Rightarrow> byte list \<Rightarrow> byte list \<Rightarrow> byte list" where
  "holeFill w h bgData maskData =
     foldl (\<lambda>filledData y. foldl (fill_pixel w h bgData maskData y) filledData [0..<w])
       (copy_background w h bgData) [0..<h]"

section \<open>Smoothing (\<open>BackgroundExtractor.applyGaussianBlur\<close>, lines 217-272)\<close>

definition kernel :: "nat list list" where
  "kernel = [[1, 2, 1], [2, 4, 2], [1, 2, 1]]"

definition kernelSum :: real where
  "kernelSum = 16"

type_synonym blur_acc = "real option \<times> real option \<times> real option"

text \<open>
  The body of the loop over \<open>kx\<close>. The loops over \<open>y\<close> and \<open>x\<close> start at 1, so the
  index of the neighbour is never negative.
\<close>

definition blur_tap :: "nat \<Rightarrow> byte list \<Rightarrow> nat \<Rightarrow> nat \<Rightarrow> int \<Rightarrow> blur_acc \<Rightarrow> int \<Rightarrow> blur_acc" where
  "blur_tap w tempData x y ky acc kx =
     (case acc of (sumR, sumG, sumB) \<Rightarrow>
        (let nx = int x + kx;
             ny = int y + ky;
             nidx = nat ((ny * int w + nx) * 4);
             weight = real (kernel ! nat (ky + 1) ! nat (kx + 1))
         in (nan_mac sumR (ta_get tempData nidx) weight,
             nan_mac sumG (ta_get tempData (nidx + 1)) weight,
             nan_mac sumB (ta_get tempData (nidx + 2)) weight)))"

definition blur_pixel ::
  "nat \<Rightarrow> byte list \<Rightarrow> byte list \<Rightarrow> nat \<Rightarrow> byte list \<Rightarrow> nat \<Rightarrow> byte list" where
  "blur_pixel w maskData tempData y data x =
     (let idx = (y * w + x) * 4;
          maskValue = ta_get maskData idx
      in if js_gt maskValue 64 then
           (case foldl (\<lambda>acc ky. foldl (blur_tap w tempData x y ky) acc [-1..1])
                   (Some 0, Some 0, Some 0) [-1..1] of
              (sumR, sumG, sumB) \<Rightarrow>
                (let d1 = ta_set data idx (toUint8Clamp (nan_div sumR kernelSum));
                     d2 = ta_set d1 (idx + 1) (toUint8Clamp (nan_div sumG kernelSum))
                 in ta_set d2 (idx + 2) (toUint8Clamp (nan_div sumB kernelSum))))
         else data)"

text \<open>One iteration: \<open>tempData\<close> is the copy taken before the loops.\<close>

definition blur_pass :: "nat \<Rightarrow> nat \<Rightarrow> byte list \<Rightarrow> byte list \<Rightarrow> byte list" where
  "blur_pass w h maskData data =
     (let tempData = data
      in foldl (\<lambda>d y. foldl (blur_pixel w maskData tempData y) d [1..<w - 1]) data [1..<h - 1])"

definition applyGaussianBlur :: "nat \<Rightarrow> nat \<Rightarrow> byte list \<Rightarrow> byte list \<Rightarrow> nat \<Rightarrow> byte list" where
  "applyGaussianBlur w h source maskData iterations =
     foldl (\<lambda>data iter. blur_pass w h maskData data) source [0..<iterations]"

text \<open>
  \<open>extract\<close>, named \<open>extract_layers\<close> here: the cut-out and the filled, smoothed
  background. Without a background image it throws. \<open>bgData\<close> and \<open>maskData\<close> are what \<open>getImageData(0, 0, width, height)\<close>
  returned for the background and for the selection canvas.
\<close>

datatype extract_error = BackgroundNotLoaded

definition extract_layers ::
  "nat \<Rightarrow> nat \<Rightarrow> byte list option \<Rightarrow> byte list \<Rightarrow> extract_error + (byte list \<times> byte list)" where
  "extract_layers w h bgImg maskData =
     (case bgImg of
        None \<Rightarrow> Inl BackgroundNotLoaded
      | Some bgData \<Rightarrow>
          (let fgData = cutout w h bgData maskData;
               filledData = holeFill w h bgData maskData;
               blurData = applyGaussianBlur w h filledData maskData 5
           in Inr (fgData, blurData)))"

section \<open>Mask edge jitter (\<open>#applyMaskJitter\<close>, lines 1345-1384)\<close>






section \<open>The weighted average of the hole fill, as the specification words it\<close>

text \<open>
  For the pixel \<open>(x, y)\<close>, a neighbour is given by its offset \<open>(dy, dx)\<close>, both within
  \<open>-10..10\<close>. It counts when it lies inside the raster and its mask value passes the
  test \<open>unsel\<close>; its weight is \<open>max 0 (R - distance)\<close>, which is zero at the distance
  \<open>R = 10\<close> and beyond. The filled value of a channel is the rounded quotient of the
  weighted sum of that channel by the sum of the weights, when the latter is positive.
\<close>












text \<open>A layer with every animatable field at the defaults of \<open>#normalizeLayer\<close>.\<close>

definition default_vals :: "string \<Rightarrow> real" where
  "default_vals p = (if p \<in> {''scale_x'', ''scale_y'', ''opacity'', ''mask_size''} then 1 else 0)"

definition example_fg :: layer where
  "example_fg = \<lparr>lid = ''fg_0'', ltype = ''foreground'', bg_mode = ''fit'',
     vals = default_vals(''x'' := 10, ''y'' := -20, ''scale_x'' := 2, ''scale_y'' := 1/2,
                         ''rotation'' := 90, ''flip_h'' := 1),
     keyframes = Map.empty, img = Some (100, 50)\<rparr>"

definition example_bg :: layer where
  "example_bg = \<lparr>lid = ''bg'', ltype = ''background'', bg_mode = ''fit'',
     vals = default_vals, keyframes = Map.empty, img = Some (1000, 500)\<rparr>"

definition tiny_scale_fg :: layer where
  "tiny_scale_fg = \<lparr>lid = ''fg_0'', ltype = ''foreground'', bg_mode = ''fit'',
     vals = default_vals(''scale_x'' := 1/1000), keyframes = Map.empty, img = Some (100, 50)\<rparr>"

text \<open>The scenario of the specification: 1280 x 720 at 16 fps, 81 frames.\<close>

definition scenario_layer :: layer where
  "scenario_layer = \<lparr>lid = ''fg_0'', ltype = ''foreground'', bg_mode = ''fit'',
     vals = default_vals,
     keyframes = [''x'' \<mapsto> [\<lparr>time = 0, value = -100\<rparr>, \<lparr>time = 2, value = 100\<rparr>]],
     img = Some (100, 50)\<rparr>"

definition scenario_state :: state where
  "scenario_state = \<lparr>currentTime = 0, duration = 81 / 16, selectedId = ''fg_0'',
     layers = [scenario_layer], dragKeyframe = None\<rparr>"



text \<open>
  Two pixels in a row: the first selected, the second with the mask value 128, which is
  neither above nor below the threshold.
\<close>

definition two_px_bg :: "byte list" where
  "two_px_bg = [10, 20, 30, 255, 200, 210, 220, 255]"

definition two_px_mask :: "byte list" where
  "two_px_mask = [255, 255, 255, 255, 128, 128, 128, 255]"

text \<open>
  Three by three opaque pixels, black but for the red byte 16 of the centre; in the mask
  the centre has the value 100, outside the selection and above 64.
\<close>

definition three_bg :: "byte list" where
  "three_bg = concat (map (\<lambda>r. [r, 0, 0, 255]) [0, 0, 0, 0, 16, 0, 0, 0, 0])"

definition three_mask :: "byte list" where
  "three_mask = concat (map (\<lambda>m. [m, m, m, 255]) [0, 0, 0, 0, 100, 0, 0, 0, 0])"




section \<open>The transform pipeline\<close>

lemma signed_sx_nz: "signed_sx l \<noteq> 0"
  by (simp add: signed_sx_def js_or_def)

lemma signed_sy_nz: "signed_sy l \<noteq> 0"
  by (simp add: signed_sy_def js_or_def)

lemma rot_inv_x: "(a * c - b * s) * c - (a * s + b * c) * (- s) = a * (c * c + s * s)"
  for a b c s :: real
  by (simp add: algebra_simps)

lemma rot_inv_y: "(a * c - b * s) * (- s) + (a * s + b * c) * c = b * (c * c + s * s)"
  for a b c s :: real
  by (simp add: algebra_simps)

lemma cos_sin_sq: "cos t * cos t + sin t * sin t = (1::real)"
  using sin_cos_squared_add3[of t] by (simp add: algebra_simps)

text \<open>The forward chain written out: scale, then rotate, then translate.\<close>

lemma forward_point_eq:
  "img l = Some isz \<Longrightarrow> forward_point cw ch l (u, v) = Some
   (cw / 2 + vals l ''x'' + (signed_sx l * (u - fst isz / 2) * cos (vals l ''rotation'' * pi / 180)
                          - signed_sy l * (v - snd isz / 2) * sin (vals l ''rotation'' * pi / 180)),
    ch / 2 + vals l ''y'' + (signed_sx l * (u - fst isz / 2) * sin (vals l ''rotation'' * pi / 180)
                          + signed_sy l * (v - snd isz / 2) * cos (vals l ''rotation'' * pi / 180)))"
  by (simp add: forward_point_def draw_point_def render_foreground_def Let_def ctm_apply_def
      ctx_scale_def ctx_rotate_def ctx_translate_def ctm_identity_def algebra_simps)

lemma inverse_of_rotated:
  fixes a b th sx sy :: real
  assumes "img l = Some isz" "signed_sx l = sx" "signed_sy l = sy"
    and "vals l ''rotation'' * pi / 180 = th"
  shows "canvasToLayerCoords cw ch
           (cw / 2 + vals l ''x'' + (a * cos th - b * sin th),
            ch / 2 + vals l ''y'' + (a * sin th + b * cos th)) l
         = Some (a / sx + fst isz / 2, b / sy + snd isz / 2)"
proof -
  have x: "(a * cos th - b * sin th) * cos (- th) - (a * sin th + b * cos th) * sin (- th) = a"
    using rot_inv_x[of a "cos th" b "sin th"] cos_sin_sq[of th] by simp
  have y: "(a * cos th - b * sin th) * sin (- th) + (a * sin th + b * cos th) * cos (- th) = b"
    using rot_inv_y[of a "cos th" b "sin th"] cos_sin_sq[of th] by simp
  have "canvasToLayerCoords cw ch
           (cw / 2 + vals l ''x'' + (a * cos th - b * sin th),
            ch / 2 + vals l ''y'' + (a * sin th + b * cos th)) l
      = Some (((a * cos th - b * sin th) * cos (- th)
                 - (a * sin th + b * cos th) * sin (- th)) / sx + fst isz / 2,
              ((a * cos th - b * sin th) * sin (- th)
                 + (a * sin th + b * cos th) * cos (- th)) / sy + snd isz / 2)"
    unfolding canvasToLayerCoords_def Let_def using assms by simp
  then show ?thesis by (simp only: x y)
qed

text \<open>
  C2. For a foreground layer with a raster, whatever its offset, rotation, scale factors
  and flips: painting the raster coordinate \<open>(u, v)\<close> through the forward chain of
  \<open>#render\<close> (translate to \<open>(W/2 + x, H/2 + y)\<close>, rotate, scale by the signed factors,
  raster centred) and mapping the canvas point back with \<open>#canvasToLayerCoords\<close> gives
  \<open>(u, v)\<close> again. Over the real numbers the round trip is exact, for every rotation
  (0, 45 and 90 degrees among them), both flips on or off and non-uniform scale.
\<close>

theorem canvasToLayerCoords_inverts_forward:
  assumes "img l = Some isz"
  shows "\<exists>p. forward_point cw ch l (u, v) = Some p \<and>
             canvasToLayerCoords cw ch p l = Some (u, v)"
proof -
  have sx: "signed_sx l \<noteq> 0" and sy: "signed_sy l \<noteq> 0"
    by (rule signed_sx_nz, rule signed_sy_nz)
  have "canvasToLayerCoords cw ch (the (forward_point cw ch l (u, v))) l
     = Some (signed_sx l * (u - fst isz / 2) / signed_sx l + fst isz / 2,
             signed_sy l * (v - snd isz / 2) / signed_sy l + snd isz / 2)"
    unfolding forward_point_eq[OF assms] option.sel
    by (rule inverse_of_rotated[OF assms refl refl refl])
  also have "\<dots> = Some (u, v)" using sx sy by simp
  finally show ?thesis using forward_point_eq[OF assms] by simp
qed

theorem canvasToLayerCoords_inverts_forward_witness:
  "img example_fg = Some (100, 50) \<and>
   (\<exists>p. forward_point 1280 720 example_fg (3, 4) = Some p \<and>
        canvasToLayerCoords 1280 720 p example_fg = Some (3, 4))"
  using canvasToLayerCoords_inverts_forward[of example_fg "(100, 50)" 1280 720 3 4]
  by (simp add: example_fg_def)

lemma rot_fwd_x: "(a * c + b * s) * c - (b * c - a * s) * s = a * (c * c + s * s)"
  for a b c s :: real
  by (simp add: algebra_simps)

lemma rot_fwd_y: "(a * c + b * s) * s + (b * c - a * s) * c = b * (c * c + s * s)"
  for a b c s :: real
  by (simp add: algebra_simps)

lemma forward_of_inverse:
  assumes "img l = Some isz"
  shows "\<exists>q. canvasToLayerCoords cw ch (px, py) l = Some q \<and> forward_point cw ch l q = Some (px, py)"
proof -
  define th where "th = vals l ''rotation'' * pi / 180"
  define a where "a = px - (cw / 2 + vals l ''x'')"
  define b where "b = py - (ch / 2 + vals l ''y'')"
  define qx where "qx = (a * cos th + b * sin th) / signed_sx l + fst isz / 2"
  define qy where "qy = (b * cos th - a * sin th) / signed_sy l + snd isz / 2"
  have sx: "signed_sx l \<noteq> 0" and sy: "signed_sy l \<noteq> 0"
    by (rule signed_sx_nz, rule signed_sy_nz)
  have q: "canvasToLayerCoords cw ch (px, py) l = Some (qx, qy)"
    using assms by (simp add: canvasToLayerCoords_def Let_def a_def b_def th_def qx_def qy_def)
  have x: "(a * cos th + b * sin th) * cos th - (b * cos th - a * sin th) * sin th = a"
    using rot_fwd_x[of a "cos th" b "sin th"] cos_sin_sq[of th] by simp
  have y: "(a * cos th + b * sin th) * sin th + (b * cos th - a * sin th) * cos th = b"
    using rot_fwd_y[of a "cos th" b "sin th"] cos_sin_sq[of th] by simp
  have ux: "signed_sx l * (qx - fst isz / 2) = a * cos th + b * sin th"
    using sx by (simp add: qx_def)
  have uy: "signed_sy l * (qy - snd isz / 2) = b * cos th - a * sin th"
    using sy by (simp add: qy_def)
  have "forward_point cw ch l (qx, qy)
      = Some (cw / 2 + vals l ''x'' + ((a * cos th + b * sin th) * cos th - (b * cos th - a * sin th) * sin th),
              ch / 2 + vals l ''y'' + ((a * cos th + b * sin th) * sin th + (b * cos th - a * sin th) * cos th))"
    unfolding forward_point_eq[OF assms] ux uy th_def[symmetric] ..
  also have "\<dots> = Some (px, py)" unfolding x y by (simp add: a_def b_def)
  finally show ?thesis using q by simp
qed

lemma wheel_scale_x:
  "vals (onCanvasWheel deltaY l) ''scale_x'' =
     max 0.01 (min 5 (js_or (vals l ''scale_x'') 1 * (if deltaY < 0 then 1.1 else 0.9)))"
  by (simp add: onCanvasWheel_def Let_def)

lemma wheel_scale_y:
  "vals (onCanvasWheel deltaY l) ''scale_y'' =
     max 0.01 (min 5 (js_or (vals l ''scale_y'') 1 * (if deltaY < 0 then 1.1 else 0.9)))"
  by (simp add: onCanvasWheel_def Let_def)

lemma clamp_bounds: "lo \<le> hi \<Longrightarrow> lo \<le> max lo (min hi v) \<and> max lo (min hi v) \<le> hi"
  for lo hi v :: real
  by (simp add: max_def min_def)

lemma abs_signed_sx: "\<bar>signed_sx l\<bar> = \<bar>js_or (vals l ''scale_x'') 1\<bar>"
  by (simp add: signed_sx_def abs_mult)

lemma abs_signed_sy: "\<bar>signed_sy l\<bar> = \<bar>js_or (vals l ''scale_y'') 1\<bar>"
  by (simp add: signed_sy_def abs_mult)

lemma js_or_pos: "0 < v \<Longrightarrow> js_or v w = v"
  by (simp add: js_or_def)

lemma wheel_range:
  "0.01 \<le> vals (onCanvasWheel deltaY l) ''scale_x'' \<and> vals (onCanvasWheel deltaY l) ''scale_x'' \<le> 5 \<and>
   0.01 \<le> vals (onCanvasWheel deltaY l) ''scale_y'' \<and> vals (onCanvasWheel deltaY l) ''scale_y'' \<le> 5"
proof -
  have le: "(0.01::real) \<le> 5" by simp
  show ?thesis unfolding wheel_scale_x wheel_scale_y
    using clamp_bounds[OF le] by blast
qed

lemma wheel_abs:
  "0.01 \<le> \<bar>signed_sx (onCanvasWheel deltaY l)\<bar> \<and> 0.01 \<le> \<bar>signed_sy (onCanvasWheel deltaY l)\<bar>"
proof -
  have x: "0.01 \<le> vals (onCanvasWheel deltaY l) ''scale_x''"
    and y: "0.01 \<le> vals (onCanvasWheel deltaY l) ''scale_y''"
    using wheel_range[of deltaY l] by blast+
  have "js_or (vals (onCanvasWheel deltaY l) ''scale_x'') 1 = vals (onCanvasWheel deltaY l) ''scale_x''"
       "js_or (vals (onCanvasWheel deltaY l) ''scale_y'') 1 = vals (onCanvasWheel deltaY l) ''scale_y''"
    using x y by (auto intro!: js_or_pos)
  then show ?thesis unfolding abs_signed_sx abs_signed_sy using x y by simp
qed

lemma zero_scale_replaced:
  "vals l ''scale_x'' = 0 \<Longrightarrow> \<bar>signed_sx l\<bar> = 1" "vals l ''scale_y'' = 0 \<Longrightarrow> \<bar>signed_sy l\<bar> = 1"
  by (simp_all add: abs_signed_sx abs_signed_sy js_or_def)

text \<open>
  C7. For a background layer with a raster of size \<open>iw \<times> ih\<close> on a canvas of size
  \<open>cw \<times> ch\<close>, \<open>#drawBackground\<close> draws: in mode \<open>fit\<close> with
  \<open>baseScale = min (cw / iw) (ch / ih)\<close>, in mode \<open>fill\<close> with
  \<open>baseScale = max (cw / iw) (ch / ih)\<close>, in both the raster at its own size under the
  scale \<open>baseScale * userScale * flip\<close> per axis; in mode \<open>stretch\<close> the raster is
  painted into a rectangle of the canvas size times the user scale under the scale of
  the flips alone, so with user scale 1 it covers exactly \<open>cw \<times> ch\<close>. With mode
  \<open>fit\<close>, a 1000 x 500 raster, a 1280 x 720 canvas and user scale 1 the base scale is
  1.28 and the drawn width 1280.
\<close>

theorem drawBackground_modes:
  assumes "img l = Some (iw, ih)"
  shows "\<exists>d. drawBackground cw ch l = Some d \<and>
     (bg_mode l = ''fit'' \<longrightarrow>
        baseScale cw ch (bg_mode l) (iw, ih) = min (cw / iw) (ch / ih)) \<and>
     (bg_mode l = ''fill'' \<longrightarrow>
        baseScale cw ch (bg_mode l) (iw, ih) = max (cw / iw) (ch / ih)) \<and>
     (bg_mode l \<noteq> ''stretch'' \<longrightarrow>
        dc_scale d = (baseScale cw ch (bg_mode l) (iw, ih) * js_or (vals l ''scale_x'') 1
                        * (if vals l ''flip_h'' > 0.5 then -1 else 1),
                      baseScale cw ch (bg_mode l) (iw, ih) * js_or (vals l ''scale_y'') 1
                        * (if vals l ''flip_v'' > 0.5 then -1 else 1)) \<and>
        dc_size d = None) \<and>
     (bg_mode l = ''stretch'' \<longrightarrow>
        dc_scale d = (if vals l ''flip_h'' > 0.5 then -1 else 1,
                      if vals l ''flip_v'' > 0.5 then -1 else 1) \<and>
        dc_size d = Some (cw * js_or (vals l ''scale_x'') 1, ch * js_or (vals l ''scale_y'') 1)) \<and>
     (bg_mode l = ''stretch'' \<and> vals l ''scale_x'' = 1 \<and> vals l ''scale_y'' = 1 \<longrightarrow>
        drawn_width d (iw, ih) = cw \<and> drawn_height d (iw, ih) = ch) \<and>
     (bg_mode l = ''fit'' \<and> (iw, ih) = (1000, 500) \<and> (cw, ch) = (1280, 720) \<and>
      vals l ''scale_x'' = 1 \<and> vals l ''scale_y'' = 1 \<longrightarrow>
        baseScale cw ch (bg_mode l) (iw, ih) = 1.28 \<and> drawn_width d (iw, ih) = 1280)"
  using assms
  by (auto simp add: drawBackground_def Let_def baseScale_def js_or_def drawn_width_def
      drawn_height_def)

theorem drawBackground_modes_witness:
  "img example_bg = Some (1000, 500) \<and> bg_mode example_bg = ''fit'' \<and>
   (\<exists>d. drawBackground 1280 720 example_bg = Some d \<and>
        baseScale 1280 720 (bg_mode example_bg) (1000, 500) = 1.28 \<and>
        drawn_width d (1000, 500) = 1280)"
proof -
  have i: "img example_bg = Some (1000, 500)" and m: "bg_mode example_bg = ''fit''"
    and v: "vals example_bg ''scale_x'' = 1" "vals example_bg ''scale_y'' = 1"
    by (simp_all add: example_bg_def default_vals_def)
  from drawBackground_modes[OF i, of 1280 720] m v show ?thesis
    using i by auto
qed

text \<open>
  C9, as the code has it. The wheel gesture clamps both scale factors into
  \<open>[0.01, 5]\<close> before it stores them, so the divisors of the inverse mapping have
  magnitude at least 0.01 after it. \<open>#canvasToLayerCoords\<close> itself applies no minimum:
  it replaces a scale factor that is exactly zero by 1 (\<open>scale_x || 1\<close>), and so for
  every layer, whatever its scale factors, neither divisor is zero.
\<close>

theorem canvasToLayerCoords_divisors_nonzero:
  "signed_sx l \<noteq> 0 \<and> signed_sy l \<noteq> 0 \<and>
   \<bar>signed_sx (l\<lparr>vals := (vals l)(''scale_x'' := 0)\<rparr>)\<bar> = 1 \<and>
   \<bar>signed_sy (l\<lparr>vals := (vals l)(''scale_y'' := 0)\<rparr>)\<bar> = 1 \<and>
   0.01 \<le> vals (onCanvasWheel deltaY l) ''scale_x'' \<and>
   vals (onCanvasWheel deltaY l) ''scale_x'' \<le> 5 \<and>
   0.01 \<le> vals (onCanvasWheel deltaY l) ''scale_y'' \<and>
   vals (onCanvasWheel deltaY l) ''scale_y'' \<le> 5 \<and>
   0.01 \<le> \<bar>signed_sx (onCanvasWheel deltaY l)\<bar> \<and>
   0.01 \<le> \<bar>signed_sy (onCanvasWheel deltaY l)\<bar>"
  using signed_sx_nz[of l] signed_sy_nz[of l] wheel_range[of deltaY l] wheel_abs[of deltaY l]
    zero_scale_replaced(1)[of "l\<lparr>vals := (vals l)(''scale_x'' := 0)\<rparr>"]
    zero_scale_replaced(2)[of "l\<lparr>vals := (vals l)(''scale_y'' := 0)\<rparr>"]
  by simp

text \<open>
  A layer with the scale factor 0.001, which is not negative: the inverse mapping divides
  by 0.001, below the minimum of 0.01, and the canvas point one pixel right of the layer's
  centre lands 1000 raster pixels right of the raster's centre.
\<close>

theorem canvasToLayerCoords_unclamped_counterexample:
  "0 \<le> vals tiny_scale_fg ''scale_x'' \<and> signed_sx tiny_scale_fg = 1 / 1000 \<and>
   \<not> 0.01 \<le> \<bar>signed_sx tiny_scale_fg\<bar> \<and>
   canvasToLayerCoords 200 200 (101, 100) tiny_scale_fg = Some (1050, 25)"
  by (simp add: tiny_scale_fg_def signed_sx_def signed_sy_def js_or_def default_vals_def
      canvasToLayerCoords_def Let_def)

section \<open>Interpolation\<close>



lemma keyframes_foldl_applyProp: "keyframes (foldl (applyProp ct) l ps) = keyframes l"
  by (induction ps arbitrary: l) (auto simp: applyProp_def Let_def split: option.splits)























section \<open>The keyframe store\<close>

lemma KF_PROPS_distinct: "distinct KF_PROPS" and KF_PROPS_length: "length KF_PROPS = 9"
  by (simp_all add: KF_PROPS_def)

subsection \<open>One track\<close>


lemma sorted_sort_by_time: "sorted (map time (sort_by_time fs))"
  unfolding sort_by_time_def by (rule sorted_sort_key)




lemma set_sort_by_time: "set (sort_by_time fs) = set fs"
  by (simp add: sort_by_time_def)



lemma filter_sort_by_time: "filter P (sort_by_time fs) = sort_by_time (filter P fs)"
  unfolding sort_by_time_def by (rule filter_sort)

lemma added_once:
  "filter (\<lambda>kf. toFixed2 (time kf) = toFixed2 ct)
     (sort_by_time (filter (\<lambda>kf. toFixed2 (time kf) \<noteq> toFixed2 ct) fs @ [\<lparr>time = ct, value = v\<rparr>]))
   = [\<lparr>time = ct, value = v\<rparr>]"
  by (simp add: filter_sort_by_time) (simp add: sort_by_time_def)

subsection \<open>The selected layer\<close>

lemma find_update_current:
  assumes "\<And>l. lid (f l) = lid l"
  shows "find (\<lambda>l. lid l = sid) (update_current f sid ls) = map_option f (find (\<lambda>l. lid l = sid) ls)"
  by (induction ls) (auto simp: assms)

lemma keyframes_addKeyframeProp:
  "keyframes (addKeyframeProp ct l q) p =
     (if p = q then
        Some (sort_by_time (filter (\<lambda>kf. toFixed2 (time kf) \<noteq> toFixed2 ct) (track l q)
                             @ [\<lparr>time = ct, value = vals l q\<rparr>]))
      else keyframes l p)"
  by (simp add: addKeyframeProp_def Let_def)

lemma vals_addKeyframeProp: "vals (addKeyframeProp ct l q) = vals l"
  and lid_addKeyframeProp: "lid (addKeyframeProp ct l q) = lid l"
  by (simp_all add: addKeyframeProp_def Let_def)

lemma vals_foldl_addKeyframeProp: "vals (foldl (addKeyframeProp ct) l ps) = vals l"
  by (induction ps arbitrary: l) (simp_all add: vals_addKeyframeProp)

lemma lid_foldl_addKeyframeProp: "lid (foldl (addKeyframeProp ct) l ps) = lid l"
  by (induction ps arbitrary: l) (simp_all add: lid_addKeyframeProp)

lemma keyframes_foldl_addKeyframeProp:
  "distinct ps \<Longrightarrow>
   keyframes (foldl (addKeyframeProp ct) l ps) p =
     (if p \<in> set ps then
        Some (sort_by_time (filter (\<lambda>kf. toFixed2 (time kf) \<noteq> toFixed2 ct) (track l p)
                             @ [\<lparr>time = ct, value = vals l p\<rparr>]))
      else keyframes l p)"
proof (induction ps arbitrary: p rule: rev_induct)
  case Nil
  then show ?case by simp
next
  case (snoc q ps)
  then have d: "distinct ps" and q: "q \<notin> set ps" by simp_all
  have tq: "track (foldl (addKeyframeProp ct) l ps) q = track l q"
    using snoc.IH[OF d, of q] q by (simp add: track_def)
  show ?case
    using snoc.IH[OF d, of p] q
    by (auto simp: keyframes_addKeyframeProp tq vals_foldl_addKeyframeProp)
qed

lemma currentLayer_addKeyframe:
  "currentLayer s = Some l \<Longrightarrow>
   currentLayer (addKeyframe s) = Some (foldl (addKeyframeProp (currentTime s)) l KF_PROPS)"
  by (simp add: currentLayer_def addKeyframe_def find_update_current lid_foldl_addKeyframeProp)

text \<open>
  C10. When a layer is selected, \<open>#addKeyframe\<close> leaves, in the track of every one of
  the nine properties of \<open>KF_PROPS\<close> (\<open>x\<close>, \<open>y\<close>, \<open>scale_x\<close>, \<open>scale_y\<close>,
  \<open>rotation\<close>, \<open>opacity\<close>, \<open>mask_size\<close>, \<open>flip_h\<close>, \<open>flip_v\<close>), exactly one sample
  whose time prints, with two decimals, like the current time: the sample at the current
  time that carries the current value of that property. The values of the layer are
  not changed.
\<close>

theorem addKeyframe_all_props:
  assumes cur: "currentLayer s = Some l" and p: "prop \<in> set KF_PROPS"
  shows "\<exists>l'. currentLayer (addKeyframe s) = Some l' \<and>
              filter (\<lambda>kf. toFixed2 (time kf) = toFixed2 (currentTime s)) (track l' prop)
                = [\<lparr>time = currentTime s, value = vals l prop\<rparr>] \<and>
              vals l' = vals l \<and>
              set KF_PROPS = {''x'', ''y'', ''scale_x'', ''scale_y'', ''rotation'', ''opacity'',
                              ''mask_size'', ''flip_h'', ''flip_v''} \<and>
              length KF_PROPS = 9 \<and> distinct KF_PROPS"
proof -
  let ?l' = "foldl (addKeyframeProp (currentTime s)) l KF_PROPS"
  have "track ?l' prop = sort_by_time
          (filter (\<lambda>kf. toFixed2 (time kf) \<noteq> toFixed2 (currentTime s)) (track l prop)
             @ [\<lparr>time = currentTime s, value = vals l prop\<rparr>])"
    using p by (simp add: track_def keyframes_foldl_addKeyframeProp[OF KF_PROPS_distinct])
  then have "filter (\<lambda>kf. toFixed2 (time kf) = toFixed2 (currentTime s)) (track ?l' prop)
                = [\<lparr>time = currentTime s, value = vals l prop\<rparr>]"
    by (simp only: added_once)
  moreover have "set KF_PROPS = {''x'', ''y'', ''scale_x'', ''scale_y'', ''rotation'', ''opacity'',
                              ''mask_size'', ''flip_h'', ''flip_v''}"
    by (simp add: KF_PROPS_def)
  ultimately show ?thesis
    using currentLayer_addKeyframe[OF cur] vals_foldl_addKeyframeProp[where ct = "currentTime s" and l = l and ps = KF_PROPS]
      KF_PROPS_distinct KF_PROPS_length by simp
qed

theorem addKeyframe_all_props_witness:
  "currentLayer scenario_state = Some scenario_layer \<and> ''opacity'' \<in> set KF_PROPS \<and>
   (\<exists>l'. currentLayer (addKeyframe scenario_state) = Some l' \<and>
         filter (\<lambda>kf. toFixed2 (time kf) = toFixed2 0) (track l' ''opacity'')
           = [\<lparr>time = 0, value = 1\<rparr>])"
proof -
  have cur: "currentLayer scenario_state = Some scenario_layer"
    by (simp add: currentLayer_def scenario_state_def scenario_layer_def)
  have p: "''opacity'' \<in> set KF_PROPS" by (simp add: KF_PROPS_def)
  have ct: "currentTime scenario_state = 0" by (simp add: scenario_state_def)
  have v: "vals scenario_layer ''opacity'' = 1"
    by (simp add: scenario_layer_def default_vals_def)
  from addKeyframe_all_props[OF cur p] show ?thesis
    using cur p unfolding ct v by blast
qed

subsection \<open>Removal\<close>








subsection \<open>Dragging\<close>

lemma keyframes_applyTime:
  "li < length (layers s) \<Longrightarrow> keyframes (layers (applyTime s t) ! li) = keyframes (layers s ! li)"
  by (simp add: applyTime_def Let_def keyframes_foldl_applyProp)

lemma onTimelineMove_track:
  assumes "dragKeyframe s = Some (li, prop, index)" "li < length (layers s)"
    and "keyframes (layers s ! li) prop = Some frames" "index < length frames"
  shows "\<exists>s'. onTimelineMove s px = Inr s' \<and> length (layers s') = length (layers s) \<and>
           track (layers s' ! li) prop =
             sort_by_time (frames[index := (frames ! index)
                \<lparr>time := max 0 (min (duration s) (px * duration s))\<rparr>])"
  using assms
  by (simp add: onTimelineMove_def Let_def track_def keyframes_applyTime) (simp add: applyTime_def Let_def)

lemma onTimelineMove_sorted:
  assumes "dragKeyframe s = Some (li, prop, index)" "li < length (layers s)"
    and "keyframes (layers s ! li) prop = Some frames" "index < length frames"
  shows "\<exists>s'. onTimelineMove s px = Inr s' \<and> sorted (map time (track (layers s' ! li) prop))"
  using onTimelineMove_track[OF assms, of px] sorted_sort_by_time by auto







section \<open>Region extraction\<close>

lemma length_ta_set: "length (ta_set xs i v) = length xs"
  by (simp add: ta_set_def)

lemma nth_ta_set: "ta_set xs i v ! j = (if j = i \<and> i < length xs then v else xs ! j)"
  by (simp add: ta_set_def)

lemma ta_get_Some: "i < length xs \<Longrightarrow> ta_get xs i = Some (xs ! i)"
  by (simp add: ta_get_def)

lemma length_cutout_step: "length (cutout_step bgData maskData fgData i) = length fgData"
  by (simp add: cutout_step_def Let_def length_ta_set)

lemma cutout_step_other:
  "j < i \<or> i + 3 < j \<Longrightarrow> cutout_step bgData maskData fgData i ! j = fgData ! j"
  by (auto simp: cutout_step_def Let_def nth_ta_set)

lemma length_cutout_loop: "length (cutout_loop bgData maskData fgData i) = length fgData"
proof (induction bgData maskData fgData i rule: cutout_loop.induct)
  case (1 bgData maskData fgData i)
  show ?case
  proof (cases "i < length bgData")
    case True
    with 1 show ?thesis
      by (simp add: length_cutout_step cutout_loop.simps[of bgData maskData fgData i])
  next
    case False
    then show ?thesis by (simp add: cutout_loop.simps[of bgData maskData fgData i])
  qed
qed

text \<open>The loop never writes below its index.\<close>

lemma cutout_loop_below:
  "j < i \<Longrightarrow> cutout_loop bgData maskData fgData i ! j = fgData ! j"
proof (induction bgData maskData fgData i rule: cutout_loop.induct)
  case (1 bgData maskData fgData i)
  show ?case
  proof (cases "i < length bgData")
    case True
    have "cutout_loop bgData maskData fgData i ! j
            = cutout_loop bgData maskData (cutout_step bgData maskData fgData i) (i + 4) ! j"
      using True by (simp add: cutout_loop.simps[of bgData maskData fgData i])
    also have "\<dots> = cutout_step bgData maskData fgData i ! j"
      using 1(1)[OF True] 1(2) by simp
    also have "\<dots> = fgData ! j" using 1(2) by (simp add: cutout_step_other)
    finally show ?thesis .
  next
    case False
    then show ?thesis by (simp add: cutout_loop.simps[of bgData maskData fgData i])
  qed
qed

text \<open>The four bytes of a pixel are those that the body wrote when the loop passed it.\<close>

lemma cutout_loop_pixel:
  assumes "i \<le> 4 * p" "4 dvd i" "4 * p < length bgData" "c < 4"
  shows "cutout_loop bgData maskData fgData i ! (4 * p + c)
           = cutout_step bgData maskData fgData (4 * p) ! (4 * p + c)"
  using assms
proof (induction bgData maskData fgData i rule: cutout_loop.induct)
  case (1 bgData maskData fgData i)
  have lt: "i < length bgData" using 1(2,4) by simp
  show ?case
  proof (cases "i = 4 * p")
    case True
    have "cutout_loop bgData maskData fgData i ! (4 * p + c)
            = cutout_loop bgData maskData (cutout_step bgData maskData fgData i) (i + 4) ! (4 * p + c)"
      using lt by (simp add: cutout_loop.simps[of bgData maskData fgData i])
    also have "\<dots> = cutout_step bgData maskData fgData i ! (4 * p + c)"
      using True 1(5) by (intro cutout_loop_below) simp
    finally show ?thesis using True by simp
  next
    case False
    from 1(3) obtain k where k: "i = 4 * k" by (auto simp: dvd_def)
    with False 1(2) have kp: "k < p" by simp
    then have le: "i + 4 \<le> 4 * p" and dv: "4 dvd (i + 4)" using k by simp_all
    have "cutout_loop bgData maskData fgData i ! (4 * p + c)
            = cutout_loop bgData maskData (cutout_step bgData maskData fgData i) (i + 4) ! (4 * p + c)"
      using lt by (simp add: cutout_loop.simps[of bgData maskData fgData i])
    also have "\<dots> = cutout_step bgData maskData (cutout_step bgData maskData fgData i) (4 * p) ! (4 * p + c)"
      using 1(1)[OF lt le dv 1(4) 1(5)] .
    also have "\<dots> = cutout_step bgData maskData fgData (4 * p) ! (4 * p + c)"
      using le 1(5)
      by (auto simp: cutout_step_def Let_def nth_ta_set length_ta_set)
    finally show ?thesis .
  qed
qed

lemma cutout_step_selected:
  assumes "js_gt (ta_get maskData i) 128" "i + 3 < length fgData" "i + 3 < length bgData"
  shows "cutout_step bgData maskData fgData i ! i = bgData ! i"
    and "cutout_step bgData maskData fgData i ! (i + 1) = bgData ! (i + 1)"
    and "cutout_step bgData maskData fgData i ! (i + 2) = bgData ! (i + 2)"
    and "cutout_step bgData maskData fgData i ! (i + 3) = 255"
proof -
  have g: "ta_get bgData i = Some (bgData ! i)" "ta_get bgData (i + 1) = Some (bgData ! (i + 1))"
    "ta_get bgData (i + 2) = Some (bgData ! (i + 2))"
    using assms(3) by (simp_all add: ta_get_def)
  have e: "cutout_step bgData maskData fgData i =
     ta_set (ta_set (ta_set (ta_set fgData i (bgData ! i)) (i + 1) (bgData ! (i + 1))) (i + 2) (bgData ! (i + 2))) (i + 3) 255"
    using assms(1) unfolding cutout_step_def Let_def g byte_or_zero_def by simp
  show "cutout_step bgData maskData fgData i ! i = bgData ! i"
    unfolding e using assms(2) by (simp add: nth_ta_set length_ta_set)
  show "cutout_step bgData maskData fgData i ! (i + 1) = bgData ! (i + 1)"
    unfolding e using assms(2) by (simp add: nth_ta_set length_ta_set)
  show "cutout_step bgData maskData fgData i ! (i + 2) = bgData ! (i + 2)"
    unfolding e using assms(2) by (simp add: nth_ta_set length_ta_set)
  show "cutout_step bgData maskData fgData i ! (i + 3) = 255"
    unfolding e using assms(2) by (simp add: nth_ta_set length_ta_set)
qed

lemma cutout_step_unselected:
  assumes "\<not> js_gt (ta_get maskData i) 128" "i + 3 < length fgData"
  shows "cutout_step bgData maskData fgData i ! (i + 3) = 0"
  using assms by (simp add: cutout_step_def Let_def nth_ta_set)

lemma cutout_pixel:
  assumes bg: "length bgData = 4 * w * h" and p: "p < w * h" and c: "c < 4"
  shows "cutout w h bgData maskData ! (4 * p + c)
           = cutout_step bgData maskData (createImageData w h) (4 * p) ! (4 * p + c)"
proof -
  have p0: "4 * p < length bgData" using bg p by simp
  show ?thesis unfolding cutout_def by (rule cutout_loop_pixel[OF _ _ p0 c]) simp_all
qed

lemma selected_iff:
  assumes mk: "length maskData = 4 * w * h" and p: "p < w * h"
  shows "js_gt (ta_get maskData (4 * p)) 128 = (128 < unat (maskData ! (4 * p)))"
proof -
  have "4 * p < length maskData" using mk p by simp
  then show ?thesis by (simp add: js_gt_def ta_get_def)
qed

text \<open>
  C3. For a background raster and a selection mask of the same \<open>w \<times> h\<close> pixels, the
  cut-out \<open>F\<close> has, at every pixel \<open>p\<close>: alpha 255 and the red, green and blue bytes
  of the background exactly when the red byte of the mask is above 128, and alpha 0
  otherwise; so the alpha is one of 255 and 0 at every pixel.
\<close>

theorem cutout_partitions:
  assumes bg: "length bgData = 4 * w * h" and mk: "length maskData = 4 * w * h"
    and p: "p < w * h"
  shows "length (cutout w h bgData maskData) = 4 * w * h \<and>
         ((cutout w h bgData maskData ! (4 * p + 3) = 255 \<and>
           cutout w h bgData maskData ! (4 * p) = bgData ! (4 * p) \<and>
           cutout w h bgData maskData ! (4 * p + 1) = bgData ! (4 * p + 1) \<and>
           cutout w h bgData maskData ! (4 * p + 2) = bgData ! (4 * p + 2))
          \<longleftrightarrow> 128 < unat (maskData ! (4 * p))) \<and>
         (\<not> 128 < unat (maskData ! (4 * p)) \<longrightarrow> cutout w h bgData maskData ! (4 * p + 3) = 0) \<and>
         (cutout w h bgData maskData ! (4 * p + 3) = 255 \<or>
          cutout w h bgData maskData ! (4 * p + 3) = 0)"
proof -
  let ?fg = "createImageData w h"
  let ?F = "cutout w h bgData maskData"
  have lf: "length ?fg = 4 * w * h" by (simp add: createImageData_def)
  have p4f: "4 * p + 3 < length ?fg" and p4b: "4 * p + 3 < length bgData"
    using p lf bg by simp_all
  have px0: "?F ! (4 * p) = cutout_step bgData maskData ?fg (4 * p) ! (4 * p)"
    using cutout_pixel[OF bg p, of 0 maskData] by simp
  have px1: "?F ! (4 * p + 1) = cutout_step bgData maskData ?fg (4 * p) ! (4 * p + 1)"
    by (rule cutout_pixel[OF bg p]) simp
  have px2: "?F ! (4 * p + 2) = cutout_step bgData maskData ?fg (4 * p) ! (4 * p + 2)"
    by (rule cutout_pixel[OF bg p]) simp
  have px3: "?F ! (4 * p + 3) = cutout_step bgData maskData ?fg (4 * p) ! (4 * p + 3)"
    by (rule cutout_pixel[OF bg p]) simp
  have len: "length ?F = 4 * w * h"
    by (simp add: cutout_def length_cutout_loop lf)
  show ?thesis
  proof (cases "128 < unat (maskData ! (4 * p))")
    case True
    then have s: "js_gt (ta_get maskData (4 * p)) 128"
      by (simp add: selected_iff[OF mk p])
    have a: "?F ! (4 * p + 3) = 255"
      unfolding px3 by (rule cutout_step_selected(4)[OF s p4f p4b])
    have r: "?F ! (4 * p) = bgData ! (4 * p)"
      unfolding px0 by (rule cutout_step_selected(1)[OF s p4f p4b])
    have g: "?F ! (4 * p + 1) = bgData ! (4 * p + 1)"
      unfolding px1 by (rule cutout_step_selected(2)[OF s p4f p4b])
    have b: "?F ! (4 * p + 2) = bgData ! (4 * p + 2)"
      unfolding px2 by (rule cutout_step_selected(3)[OF s p4f p4b])
    have "(?F ! (4 * p + 3) = 255 \<and> ?F ! (4 * p) = bgData ! (4 * p) \<and>
           ?F ! (4 * p + 1) = bgData ! (4 * p + 1) \<and> ?F ! (4 * p + 2) = bgData ! (4 * p + 2))
          \<longleftrightarrow> 128 < unat (maskData ! (4 * p))"
      using a r g b True by blast
    moreover have "\<not> 128 < unat (maskData ! (4 * p)) \<longrightarrow> ?F ! (4 * p + 3) = 0"
      using True by blast
    moreover have "?F ! (4 * p + 3) = 255 \<or> ?F ! (4 * p + 3) = 0"
      using a by blast
    ultimately show ?thesis using len by blast
  next
    case False
    then have s: "\<not> js_gt (ta_get maskData (4 * p)) 128"
      by (simp add: selected_iff[OF mk p])
    have a: "?F ! (4 * p + 3) = 0"
      unfolding px3 by (rule cutout_step_unselected[OF s p4f])
    have n: "(0::byte) \<noteq> 255" by simp
    have "(?F ! (4 * p + 3) = 255 \<and> ?F ! (4 * p) = bgData ! (4 * p) \<and>
           ?F ! (4 * p + 1) = bgData ! (4 * p + 1) \<and> ?F ! (4 * p + 2) = bgData ! (4 * p + 2))
          \<longleftrightarrow> 128 < unat (maskData ! (4 * p))"
      using a n False by auto
    moreover have "\<not> 128 < unat (maskData ! (4 * p)) \<longrightarrow> ?F ! (4 * p + 3) = 0"
      using a by blast
    moreover have "?F ! (4 * p + 3) = 255 \<or> ?F ! (4 * p + 3) = 0"
      using a by blast
    ultimately show ?thesis using len by blast
  qed
qed


theorem cutout_partitions_witness:
  "length two_px_bg = 4 * 2 * 1 \<and> length two_px_mask = 4 * 2 * 1 \<and> (0::nat) < 2 * 1 \<and>
   (1::nat) < 2 * 1 \<and>
   cutout 2 1 two_px_bg two_px_mask ! 3 = 255 \<and> cutout 2 1 two_px_bg two_px_mask ! 0 = 10 \<and>
   cutout 2 1 two_px_bg two_px_mask ! 1 = 20 \<and> cutout 2 1 two_px_bg two_px_mask ! 2 = 30 \<and>
   cutout 2 1 two_px_bg two_px_mask ! 7 = 0"
proof -
  have l: "length two_px_bg = 4 * 2 * 1" "length two_px_mask = 4 * 2 * 1"
    by (simp_all add: two_px_bg_def two_px_mask_def)
  have m: "128 < unat (two_px_mask ! (4 * 0))" "\<not> 128 < unat (two_px_mask ! (4 * 1))"
    by (simp_all add: two_px_mask_def)
  have b: "two_px_bg ! (4 * 0) = 10" "two_px_bg ! (4 * 0 + 1) = 20" "two_px_bg ! (4 * 0 + 2) = 30"
    by (simp_all add: two_px_bg_def)
  from cutout_partitions[OF l, of 0] m(1) b
  have "cutout 2 1 two_px_bg two_px_mask ! 3 = 255 \<and> cutout 2 1 two_px_bg two_px_mask ! 0 = 10 \<and>
        cutout 2 1 two_px_bg two_px_mask ! 1 = 20 \<and> cutout 2 1 two_px_bg two_px_mask ! 2 = 30"
    by (simp add: numeral_2_eq_2)
  moreover from cutout_partitions[OF l, of 1] m(2)
  have "cutout 2 1 two_px_bg two_px_mask ! 7 = 0" by simp
  ultimately show ?thesis using l by simp
qed

lemma foldl_nth_frame:
  assumes "\<And>a x. f a x ! j = a ! j"
  shows "foldl f a xs ! j = a ! j"
  by (induction xs arbitrary: a) (simp_all add: assms)

lemma foldl_length_frame:
  assumes "\<And>a x. length (f a x) = length a"
  shows "length (foldl f a xs) = length a"
  by (induction xs arbitrary: a) (simp_all add: assms)

subsection \<open>The copy of the background\<close>

lemma copy_prefix:
  "k \<le> length bgData \<Longrightarrow> length init = length bgData \<Longrightarrow>
   foldl (\<lambda>filledData i. ta_set filledData i (bgData ! i)) init [0..<k] = take k bgData @ drop k init"
proof (induction k)
  case 0
  then show ?case by simp
next
  case (Suc k)
  then have k: "k < length bgData" by simp
  have "foldl (\<lambda>filledData i. ta_set filledData i (bgData ! i)) init [0..<Suc k]
          = ta_set (take k bgData @ drop k init) k (bgData ! k)"
    using Suc by simp
  also have "\<dots> = take (Suc k) bgData @ drop (Suc k) init"
    using k Suc.prems(2)
    by (simp add: ta_set_def list_update_append take_Suc_conv_app_nth upd_conv_take_nth_drop
        drop_Suc Cons_nth_drop_Suc)
  finally show ?case .
qed

lemma copy_background_id: "length bgData = 4 * w * h \<Longrightarrow> copy_background w h bgData = bgData"
  unfolding copy_background_def using copy_prefix[of "length bgData" bgData "createImageData w h"]
  by (simp add: createImageData_def)

subsection \<open>The hole fill writes selected pixels only\<close>

lemma length_fill_pixel: "length (fill_pixel w h bgData maskData y filledData x) = length filledData"
  by (simp add: fill_pixel_def Let_def length_ta_set split: prod.splits)

lemma fill_pixel_frame:
  assumes "c < 4" "\<not> js_gt (ta_get maskData (4 * p)) 128"
  shows "fill_pixel w h bgData maskData y filledData x ! (4 * p + c) = filledData ! (4 * p + c)"
proof (cases "y * w + x = p")
  case True
  then have "(y * w + x) * 4 = 4 * p" by simp
  with assms(2) show ?thesis by (simp add: fill_pixel_def Let_def)
next
  case False
  then have "4 * p + c \<noteq> (y * w + x) * 4" "4 * p + c \<noteq> (y * w + x) * 4 + 1"
    "4 * p + c \<noteq> (y * w + x) * 4 + 2" "4 * p + c \<noteq> (y * w + x) * 4 + 3"
    using assms(1) by presburger+
  then show ?thesis
    by (simp add: fill_pixel_def Let_def nth_ta_set split: prod.splits)
qed

lemma length_holeFill: "length bgData = 4 * w * h \<Longrightarrow> length (holeFill w h bgData maskData) = 4 * w * h"
  unfolding holeFill_def
  by (simp add: foldl_length_frame length_fill_pixel copy_background_id)

lemma holeFill_frame:
  assumes "length bgData = 4 * w * h" "c < 4" "\<not> js_gt (ta_get maskData (4 * p)) 128"
  shows "holeFill w h bgData maskData ! (4 * p + c) = bgData ! (4 * p + c)"
proof -
  have "holeFill w h bgData maskData ! (4 * p + c) = copy_background w h bgData ! (4 * p + c)"
    unfolding holeFill_def
    by (intro foldl_nth_frame fill_pixel_frame[OF assms(2,3)])
  then show ?thesis by (simp add: copy_background_id[OF assms(1)])
qed

subsection \<open>The smoothing writes pixels above 64 only\<close>

lemma length_blur_pixel: "length (blur_pixel w maskData tempData y data x) = length data"
  by (simp add: blur_pixel_def Let_def length_ta_set split: prod.splits)

lemma blur_pixel_frame:
  assumes "c < 4" "\<not> js_gt (ta_get maskData (4 * p)) 64"
  shows "blur_pixel w maskData tempData y data x ! (4 * p + c) = data ! (4 * p + c)"
proof (cases "y * w + x = p")
  case True
  then have "(y * w + x) * 4 = 4 * p" by simp
  with assms(2) show ?thesis by (simp add: blur_pixel_def Let_def)
next
  case False
  then have "4 * p + c \<noteq> (y * w + x) * 4" "4 * p + c \<noteq> (y * w + x) * 4 + 1"
    "4 * p + c \<noteq> (y * w + x) * 4 + 2"
    using assms(1) by presburger+
  then show ?thesis
    by (simp add: blur_pixel_def Let_def nth_ta_set split: prod.splits)
qed

text \<open>The alpha byte is never written by the smoothing.\<close>

lemma blur_pixel_alpha: "blur_pixel w maskData tempData y data x ! (4 * p + 3) = data ! (4 * p + 3)"
proof -
  have "4 * p + 3 \<noteq> (y * w + x) * 4" "4 * p + 3 \<noteq> (y * w + x) * 4 + 1"
    "4 * p + 3 \<noteq> (y * w + x) * 4 + 2"
    by presburger+
  then show ?thesis
    by (simp add: blur_pixel_def Let_def nth_ta_set split: prod.splits)
qed

lemma length_blur_pass: "length (blur_pass w h maskData data) = length data"
  unfolding blur_pass_def Let_def
  by (intro foldl_length_frame length_blur_pixel)

lemma blur_pass_frame:
  assumes "c < 4" "\<not> js_gt (ta_get maskData (4 * p)) 64"
  shows "blur_pass w h maskData data ! (4 * p + c) = data ! (4 * p + c)"
  unfolding blur_pass_def Let_def
  by (intro foldl_nth_frame blur_pixel_frame[OF assms])

lemma applyGaussianBlur_frame:
  assumes "c < 4" "\<not> js_gt (ta_get maskData (4 * p)) 64"
  shows "applyGaussianBlur w h source maskData iterations ! (4 * p + c) = source ! (4 * p + c)"
  unfolding applyGaussianBlur_def
  by (intro foldl_nth_frame blur_pass_frame[OF assms])

lemma length_applyGaussianBlur: "length (applyGaussianBlur w h source maskData iterations) = length source"
  unfolding applyGaussianBlur_def
  by (intro foldl_length_frame length_blur_pass)

lemma js_gt_mono: "js_gt v 128 \<Longrightarrow> js_gt v 64"
  by (cases v) (simp_all add: js_gt_def)

lemma three_len: "length three_bg = 4 * 3 * 3" "length three_mask = 4 * 3 * 3"
  by (simp_all add: three_bg_def three_mask_def)

lemma three_unselected: "\<not> js_gt (ta_get three_mask (4 * p)) 128"
proof (cases "p < 9")
  case True
  then have "p \<in> set [0..<9]" by simp
  moreover have "\<forall>q \<in> set [0..<9]. \<not> js_gt (ta_get three_mask (4 * q)) 128"
    by code_simp
  ultimately show ?thesis by blast
next
  case False
  then show ?thesis using three_len(2) by (simp add: js_gt_def ta_get_def)
qed

lemma fill_pixel_unselected:
  "\<not> js_gt (ta_get maskData (4 * (y * w + x))) 128 \<Longrightarrow>
   fill_pixel w h bgData maskData y filledData x = filledData"
  by (simp add: fill_pixel_def Let_def mult.commute)

lemma holeFill_nothing_selected:
  assumes "\<And>p. \<not> js_gt (ta_get maskData (4 * p)) 128" "length bgData = 4 * w * h"
  shows "holeFill w h bgData maskData = bgData"
proof -
  have inner: "foldl (fill_pixel w h bgData maskData y) f xs = f" for y f xs
    by (induction xs arbitrary: f) (simp_all add: fill_pixel_unselected[OF assms(1)])
  have "foldl (\<lambda>filledData y. foldl (fill_pixel w h bgData maskData y) filledData [0..<w]) f ys = f" for f ys
    by (induction ys arbitrary: f) (simp_all add: inner)
  then show ?thesis by (simp add: holeFill_def copy_background_id[OF assms(2)])
qed

lemma h1: "holeFill 3 3 three_bg three_mask = three_bg"
  by (rule holeFill_nothing_selected[OF three_unselected three_len(1)])

lemma b5: "applyGaussianBlur 3 3 three_bg three_mask 5 ! 16 = 0"
  by code_simp

text \<open>
  The centre of the three by three raster has the mask value 100: it is outside the
  selection, and the five smoothing passes take its red byte from 16 down to 0.
\<close>

theorem smoothing_changes_unselected_counterexample:
  "three_bg ! 16 = 16 \<and> unat (three_mask ! 16) = 100 \<and>
   \<not> isl (extract_layers 3 3 (Some three_bg) three_mask) \<and>
   snd (projr (extract_layers 3 3 (Some three_bg) three_mask)) ! 16 = 0"
proof -
  have "three_bg ! 16 = 16" "unat (three_mask ! 16) = 100" by code_simp+
  then show ?thesis by (simp add: extract_layers_def Let_def h1 b5)
qed

text \<open>
  C5, as the code has it. For a background raster and a mask of the same \<open>w \<times> h\<close>
  pixels and every byte \<open>c\<close> of every pixel \<open>p\<close>: the hole fill leaves the byte as it
  was in the background when the mask value of the pixel is not above 128; the
  smoothing, from whatever buffer and for any number of passes, leaves the byte as it
  was when the mask value is not above 64, and never writes an alpha byte; so in the
  background that \<open>extract\<close> returns, every pixel whose mask value is at most 64 has
  the four bytes of the original background.
\<close>

theorem background_frame:
  assumes bg: "length bgData = 4 * w * h" and mk: "length maskData = 4 * w * h"
    and p: "p < w * h" and c: "c < 4"
  shows "(\<not> 128 < unat (maskData ! (4 * p)) \<longrightarrow>
            holeFill w h bgData maskData ! (4 * p + c) = bgData ! (4 * p + c)) \<and>
         (\<forall>source iterations. \<not> 64 < unat (maskData ! (4 * p)) \<longrightarrow>
            applyGaussianBlur w h source maskData iterations ! (4 * p + c) = source ! (4 * p + c)) \<and>
         (\<forall>source iterations.
            applyGaussianBlur w h source maskData iterations ! (4 * p + 3) = source ! (4 * p + 3)) \<and>
         (\<not> 64 < unat (maskData ! (4 * p)) \<longrightarrow>
            \<not> isl (extract_layers w h (Some bgData) maskData) \<and>
            length (snd (projr (extract_layers w h (Some bgData) maskData))) = 4 * w * h \<and>
            snd (projr (extract_layers w h (Some bgData) maskData)) ! (4 * p + c) = bgData ! (4 * p + c))"
proof -
  have g: "ta_get maskData (4 * p) = Some (maskData ! (4 * p))"
    using mk p by (simp add: ta_get_def)
  have s128: "js_gt (ta_get maskData (4 * p)) 128 = (128 < unat (maskData ! (4 * p)))"
    and s64: "js_gt (ta_get maskData (4 * p)) 64 = (64 < unat (maskData ! (4 * p)))"
    by (simp_all add: g js_gt_def)
  have a: "holeFill w h bgData maskData ! (4 * p + c) = bgData ! (4 * p + c)"
    if "\<not> 128 < unat (maskData ! (4 * p))"
    using that holeFill_frame[OF bg c, of maskData p] by (simp add: s128)
  have b: "applyGaussianBlur w h source maskData iterations ! (4 * p + c) = source ! (4 * p + c)"
    if "\<not> 64 < unat (maskData ! (4 * p))" for source iterations
    using that applyGaussianBlur_frame[OF c, of maskData p] by (simp add: s64)
  have al: "applyGaussianBlur w h source maskData iterations ! (4 * p + 3) = source ! (4 * p + 3)"
    for source iterations
    unfolding applyGaussianBlur_def blur_pass_def Let_def
    by (intro foldl_nth_frame blur_pixel_alpha)
  have e: "\<not> isl (extract_layers w h (Some bgData) maskData) \<and>
            length (snd (projr (extract_layers w h (Some bgData) maskData))) = 4 * w * h \<and>
            snd (projr (extract_layers w h (Some bgData) maskData)) ! (4 * p + c) = bgData ! (4 * p + c)"
    if n: "\<not> 64 < unat (maskData ! (4 * p))"
  proof -
    from n have n': "\<not> 128 < unat (maskData ! (4 * p))" by simp
    show ?thesis
      by (simp add: extract_layers_def Let_def b[OF n] a[OF n'] length_applyGaussianBlur
          length_holeFill[OF bg])
  qed
  show ?thesis using a b al e by blast
qed

theorem background_frame_witness:
  "length three_bg = 4 * 3 * 3 \<and> length three_mask = 4 * 3 * 3 \<and> (0::nat) < 3 * 3 \<and> (0::nat) < 4 \<and>
   \<not> 64 < unat (three_mask ! (4 * 0)) \<and>
   \<not> isl (extract_layers 3 3 (Some three_bg) three_mask) \<and>
   snd (projr (extract_layers 3 3 (Some three_bg) three_mask)) ! (4 * 0 + 0) = three_bg ! (4 * 0 + 0)"
proof -
  have m: "\<not> 64 < unat (three_mask ! (4 * 0))" by (simp add: three_mask_def)
  have p: "(0::nat) < 3 * 3" and c: "(0::nat) < 4" by simp_all
  from background_frame[OF three_len p c] m
  have "\<not> isl (extract_layers 3 3 (Some three_bg) three_mask) \<and>
        snd (projr (extract_layers 3 3 (Some three_bg) three_mask)) ! (4 * 0 + 0) = three_bg ! (4 * 0 + 0)"
    by blast
  then show ?thesis using three_len m by simp
qed

subsection \<open>The sampling loops as sums\<close>







subsection \<open>One pixel of the hole fill\<close>







subsection \<open>The average is a byte\<close>








subsection \<open>A raster of two pixels in a row\<close>




















section \<open>Mask edge jitter\<close>








end
